theory Spec2Isabelle
  imports Main "HOL-Library.Char_ord" "HOL-Library.List_Lexorder" "HOL-Library.Multiset"
begin

section \<open>GitLab CI/CD variables auditor (gitlab.py)\<close>

text \<open>
  A shallow embedding of \<^verbatim>\<open>GitLabSecretsAuditor\<close>. Python values that come out of
  \<^verbatim>\<open>response.json()\<close> are JSON values; a Python \<^verbatim>\<open>dict\<close> is an association list
  (insertion order kept, lookup by \<open>map_of\<close>); a Python \<^verbatim>\<open>str\<close> is a \<open>string\<close>,
  compared lexicographically character by character as Python does (text
  outside ASCII stands as its UTF-8 bytes, whose order is that of the code
  points). JSON numbers are integers: floating-point values are outside the
  model. The dicts the auditor builds itself have fixed keys and are records.
  Progress lines printed during the audit are left out; the lines of the
  summary are the value of \<open>display_summary\<close>.
\<close>

subsection \<open>Python values\<close>

datatype json =
    JNull
  | JBool bool
  | JInt int
  | JStr string
  | JArr "json list"
  | JObj "(string \<times> json) list"

type_synonym pydict = "(string \<times> json) list"

datatype error = KeyError | TypeError

text \<open>\<^verbatim>\<open>d[k]\<close> on a dict raises \<^verbatim>\<open>KeyError\<close> for a missing key.\<close>

definition py_getitem :: "pydict \<Rightarrow> string \<Rightarrow> error + json" where
  "py_getitem d k = (case map_of d k of None \<Rightarrow> Inl KeyError | Some v \<Rightarrow> Inr v)"

text \<open>\<^verbatim>\<open>d.get(k, default)\<close>; \<^verbatim>\<open>d.get(k)\<close> is \<open>py_get d k JNull\<close>.\<close>

definition py_get :: "pydict \<Rightarrow> string \<Rightarrow> json \<Rightarrow> json" where
  "py_get d k dflt = (case map_of d k of None \<Rightarrow> dflt | Some v \<Rightarrow> v)"

text \<open>Truth value of a Python object, as tested by \<^verbatim>\<open>if x:\<close>.\<close>

fun py_truthy :: "json \<Rightarrow> bool" where
  "py_truthy JNull = False"
| "py_truthy (JBool b) = b"
| "py_truthy (JInt i) = (i \<noteq> 0)"
| "py_truthy (JStr s) = (s \<noteq> [])"
| "py_truthy (JArr xs) = (xs \<noteq> [])"
| "py_truthy (JObj kvs) = (kvs \<noteq> [])"

text \<open>
  An f-string is kept symbolic: literal text and interpolated values in order.
  Python's \<^verbatim>\<open>str()\<close> of an interpolated value is not modelled.
\<close>

datatype seg = Lit string | Fmt json

type_synonym fstring = "seg list"

subsection \<open>The HTTP collaborator\<close>

text \<open>
  A request made with \<^verbatim>\<open>requests.get(url, headers=..., params=...)\<close>.
\<close>

datatype param = PStr string | PInt int

record request =
  req_url :: fstring
  req_headers :: "(string \<times> string) list"
  req_params :: "(string \<times> param) list"

text \<open>
  What the \<^verbatim>\<open>try\<close> block sees: either a \<^verbatim>\<open>RequestException\<close> was raised (by
  \<^verbatim>\<open>requests.get\<close>, \<^verbatim>\<open>raise_for_status\<close> or \<^verbatim>\<open>json\<close>), or the response carries
  headers (the lookup of \<^verbatim>\<open>response.headers\<close>) and a parsed body, a list of dicts
  as the source's \<^verbatim>\<open>List[Dict]\<close> declares.
\<close>

datatype response =
    RequestException
  | Ok "string \<rightharpoonup> string" "pydict list"

text \<open>
  The server is any deterministic function of the requests made so far and of
  the current request. The list of requests made is the state threaded through
  the program: its length is the number of HTTP calls.
\<close>

type_synonym backend = "request list \<Rightarrow> request \<Rightarrow> response"

subsection \<open>The auditor\<close>

record auditor =
  token :: string
  gitlab_url :: string
  headers :: "(string \<times> string) list"

text \<open>\<^verbatim>\<open>s.rstrip('/')\<close>\<close>

definition rstrip_slash :: "string \<Rightarrow> string" where
  "rstrip_slash s = rev (dropWhile (\<lambda>c. c = CHR ''/'') (rev s))"

definition init :: "string \<Rightarrow> string \<Rightarrow> auditor" where
  "init tok url =
     \<lparr> token = tok,
       gitlab_url = rstrip_slash url,
       headers = [(''PRIVATE-TOKEN'', tok), (''Content-Type'', ''application/json'')] \<rparr>"

subsection \<open>\<^verbatim>\<open>get_all_projects\<close>\<close>

definition per_page :: int where
  "per_page = 100"

definition projects_request :: "auditor \<Rightarrow> int \<Rightarrow> request" where
  "projects_request self page =
     \<lparr> req_url = [Lit (gitlab_url self), Lit ''/api/v4/projects''],
       req_headers = headers self,
       req_params = [(''membership'', PStr ''true''),
                     (''per_page'', PInt per_page),
                     (''page'', PInt page),
                     (''simple'', PStr ''true'')] \<rparr>"

text \<open>
  The \<^verbatim>\<open>while True\<close> loop, with the loop variables \<^verbatim>\<open>projects\<close> and \<^verbatim>\<open>page\<close>
  and the requests made so far. The loop need not end (a server may announce a
  next page for ever): \<open>None\<close> is "does not return".
\<close>

partial_function (option) get_all_projects_loop ::
  "auditor \<Rightarrow> backend \<Rightarrow> pydict list \<Rightarrow> int \<Rightarrow> request list \<Rightarrow> (pydict list \<times> request list) option"
where
  "get_all_projects_loop self server projects page log =
     (case server log (projects_request self page) of
        RequestException \<Rightarrow> Some (projects, log @ [projects_request self page])
      | Ok hdrs page_projects \<Rightarrow>
          if page_projects = [] then Some (projects, log @ [projects_request self page])
          else if hdrs ''x-next-page'' = None \<or> hdrs ''x-next-page'' = Some []
          then Some (projects @ page_projects, log @ [projects_request self page])
          else get_all_projects_loop self server (projects @ page_projects) (page + 1)
                 (log @ [projects_request self page]))"

definition get_all_projects ::
  "auditor \<Rightarrow> backend \<Rightarrow> request list \<Rightarrow> (pydict list \<times> request list) option" where
  "get_all_projects self server log = get_all_projects_loop self server [] 1 log"

subsection \<open>\<^verbatim>\<open>get_project_variables\<close>\<close>

text \<open>
  The URL interpolates the project id; no parameters are passed. A failed
  request gives the empty list, like a project without variables.
\<close>

definition variables_request :: "auditor \<Rightarrow> json \<Rightarrow> request" where
  "variables_request self project_id =
     \<lparr> req_url = [Lit (gitlab_url self), Lit ''/api/v4/projects/'', Fmt project_id, Lit ''/variables''],
       req_headers = headers self,
       req_params = [] \<rparr>"

definition get_project_variables ::
  "auditor \<Rightarrow> backend \<Rightarrow> request list \<Rightarrow> json \<Rightarrow> pydict list \<times> request list" where
  "get_project_variables self server log project_id =
     (case server log (variables_request self project_id) of
        RequestException \<Rightarrow> ([], log @ [variables_request self project_id])
      | Ok hdrs body \<Rightarrow> (body, log @ [variables_request self project_id]))"

subsection \<open>\<^verbatim>\<open>audit_secrets\<close>\<close>

text \<open>
  The dict stored per variable (source lines 110 to 116), the dict
  \<^verbatim>\<open>project_data\<close> (lines 101 to 107) and the dict \<^verbatim>\<open>results\<close> (lines 78 to 84).
\<close>

record variable =
  key :: json
  protected :: json
  masked :: json
  environment_scope :: json
  variable_type :: json

record project_data =
  id' :: json
  name :: json
  path :: json
  web_url :: json
  variables :: "variable list"

record audit_results =
  audit_date :: string
  total_projects :: int
  projects_with_secrets :: int
  total_secrets :: int
  projects :: "project_data list"

definition project_variable :: "pydict \<Rightarrow> variable" where
  "project_variable var =
     \<lparr> key = py_get var ''key'' JNull,
       protected = py_get var ''protected'' (JBool False),
       masked = py_get var ''masked'' (JBool False),
       environment_scope = py_get var ''environment_scope'' (JStr ''*''),
       variable_type = py_get var ''variable_type'' (JStr ''env_var'') \<rparr>"

text \<open>
  Building \<^verbatim>\<open>project_data\<close>: \<^verbatim>\<open>project['name']\<close> and \<^verbatim>\<open>project['web_url']\<close> raise
  \<^verbatim>\<open>KeyError\<close> when missing; id and path were read before the fetch.
\<close>

definition make_project_data ::
  "pydict \<Rightarrow> json \<Rightarrow> json \<Rightarrow> pydict list \<Rightarrow> error + project_data" where
  "make_project_data project project_id project_path vars =
     (case py_getitem project ''name'' of
        Inl e \<Rightarrow> Inl e
      | Inr nm \<Rightarrow>
          (case py_getitem project ''web_url'' of
             Inl e \<Rightarrow> Inl e
           | Inr url \<Rightarrow>
               Inr \<lparr> id' = project_id, name = nm, path = project_path, web_url = url,
                     variables = map project_variable vars \<rparr>))"

text \<open>
  The \<^verbatim>\<open>for\<close> loop over the enumerated projects, threading \<^verbatim>\<open>results\<close> and the
  request log. An exception leaves the loop and the function: \<open>Inl\<close>.
\<close>

fun audit_loop ::
  "auditor \<Rightarrow> backend \<Rightarrow> pydict list \<Rightarrow> audit_results \<Rightarrow> request list
     \<Rightarrow> error + (audit_results \<times> request list)" where
  "audit_loop self server [] results log = Inr (results, log)"
| "audit_loop self server (project # rest) results log =
     (case py_getitem project ''id'' of
        Inl e \<Rightarrow> Inl e
      | Inr project_id \<Rightarrow>
          (case py_getitem project ''path_with_namespace'' of
             Inl e \<Rightarrow> Inl e
           | Inr project_path \<Rightarrow>
               (case get_project_variables self server log project_id of
                  (vars, log') \<Rightarrow>
                    if vars \<noteq> [] then
                      (case make_project_data project project_id project_path vars of
                         Inl e \<Rightarrow> Inl e
                       | Inr pd \<Rightarrow>
                           audit_loop self server rest
                             (results\<lparr> projects_with_secrets := projects_with_secrets results + 1,
                                       total_secrets := total_secrets results + int (length vars),
                                       projects := projects results @ [pd] \<rparr>)
                             log')
                    else audit_loop self server rest results log')))"

text \<open>
  \<open>now\<close> is the value of \<^verbatim>\<open>datetime.now().isoformat()\<close>. \<open>None\<close>: the enumeration does
  not return.
\<close>

definition audit_secrets ::
  "auditor \<Rightarrow> backend \<Rightarrow> string \<Rightarrow> request list
     \<Rightarrow> (error + (audit_results \<times> request list)) option" where
  "audit_secrets self server now log =
     (case get_all_projects self server log of
        None \<Rightarrow> None
      | Some (projs, log') \<Rightarrow>
          Some (audit_loop self server projs
                  \<lparr> audit_date = now,
                    total_projects = int (length projs),
                    projects_with_secrets = 0,
                    total_secrets = 0,
                    projects = [] \<rparr>
                  log'))"

subsection \<open>HTTP statuses\<close>






subsection \<open>Ordering of Python values\<close>

text \<open>
  \<^verbatim>\<open>==\<close> and \<^verbatim>\<open><\<close> on the values above. \<^verbatim>\<open>bool\<close> is a subclass of \<^verbatim>\<open>int\<close>; strings
  compare by code point; lists compare at the first pair of unequal elements;
  every other pair, in particular any pair with \<^verbatim>\<open>None\<close>, raises \<^verbatim>\<open>TypeError\<close>
  under \<^verbatim>\<open><\<close>.
\<close>

fun py_num :: "json \<Rightarrow> int option" where
  "py_num (JInt i) = Some i"
| "py_num (JBool b) = Some (if b then 1 else 0)"
| "py_num _ = None"

fun py_eq :: "json \<Rightarrow> json \<Rightarrow> bool" where
  "py_eq JNull JNull = True"
| "py_eq (JStr a) (JStr b) = (a = b)"
| "py_eq (JArr xs) (JArr ys) = list_all2 py_eq xs ys"
| "py_eq (JObj a) (JObj b) =
     (length a = length b \<and>
      (\<forall>kv \<in> set a. case map_of b (fst kv) of None \<Rightarrow> False | Some w \<Rightarrow> py_eq (snd kv) w))"
| "py_eq x y = (case (py_num x, py_num y) of (Some i, Some j) \<Rightarrow> i = j | _ \<Rightarrow> False)"

fun py_lt :: "json \<Rightarrow> json \<Rightarrow> error + bool" where
  "py_lt (JStr a) (JStr b) = Inr (a < b)"
| "py_lt (JArr []) (JArr ys) = Inr (ys \<noteq> [])"
| "py_lt (JArr (x # xs)) (JArr []) = Inr False"
| "py_lt (JArr (x # xs)) (JArr (y # ys)) =
     (if py_eq x y then py_lt (JArr xs) (JArr ys) else py_lt x y)"
| "py_lt x y = (case (py_num x, py_num y) of (Some i, Some j) \<Rightarrow> Inr (i < j) | _ \<Rightarrow> Inl TypeError)"

text \<open>
  \<^verbatim>\<open>sorted(xs, key=f, reverse=...)\<close>: a stable sort that uses \<^verbatim>\<open><\<close> on the keys
  only and raises what a comparison raises. A list of fewer than two elements
  is not compared at all; in a longer list every element takes part in a
  comparison. With \<^verbatim>\<open>reverse=True\<close> the list is reversed, sorted and reversed
  again, which keeps equal keys in their original order. The model sorts by
  insertion; on keys that are all strings, or all integers, or that contain
  \<^verbatim>\<open>None\<close>, the result does not depend on which stable algorithm is run.
\<close>

fun insort_lt :: "('a \<Rightarrow> json) \<Rightarrow> 'a \<Rightarrow> 'a list \<Rightarrow> error + 'a list" where
  "insort_lt f x [] = Inr [x]"
| "insort_lt f x (y # ys) =
     (case py_lt (f y) (f x) of
        Inl e \<Rightarrow> Inl e
      | Inr lt \<Rightarrow>
          if lt then (case insort_lt f x ys of Inl e \<Rightarrow> Inl e | Inr zs \<Rightarrow> Inr (y # zs))
          else Inr (x # y # ys))"

fun sort_lt :: "('a \<Rightarrow> json) \<Rightarrow> 'a list \<Rightarrow> error + 'a list" where
  "sort_lt f [] = Inr []"
| "sort_lt f (x # xs) =
     (case sort_lt f xs of Inl e \<Rightarrow> Inl e | Inr ys \<Rightarrow> insort_lt f x ys)"

definition py_sorted :: "('a \<Rightarrow> json) \<Rightarrow> bool \<Rightarrow> 'a list \<Rightarrow> error + 'a list" where
  "py_sorted f reverse xs =
     (if reverse
      then (case sort_lt f (rev xs) of Inl e \<Rightarrow> Inl e | Inr ys \<Rightarrow> Inr (rev ys))
      else sort_lt f xs)"

fun py_join :: "string \<Rightarrow> string list \<Rightarrow> string" where
  "py_join sep [] = []"
| "py_join sep [x] = x"
| "py_join sep (x # y # ys) = x @ sep @ py_join sep (y # ys)"

subsection \<open>\<^verbatim>\<open>display_summary\<close>\<close>

text \<open>
  Each \<^verbatim>\<open>print\<close> call contributes one \<open>fstring\<close>. The glyphs of the source's
  literals are their UTF-8 bytes.
\<close>

definition newline :: string where "newline = [CHR 0x0A]"
definition glyph_chart :: string where "glyph_chart = [CHR 0xF0, CHR 0x9F, CHR 0x93, CHR 0x8A]"
definition glyph_folder :: string where "glyph_folder = [CHR 0xF0, CHR 0x9F, CHR 0x93, CHR 0x81]"
definition glyph_lock :: string where "glyph_lock = [CHR 0xF0, CHR 0x9F, CHR 0x94, CHR 0x92]"
definition glyph_mask :: string where "glyph_mask = [CHR 0xF0, CHR 0x9F, CHR 0x8E, CHR 0xAD]"
definition glyph_bullet :: string where "glyph_bullet = [CHR 0xE2, CHR 0x80, CHR 0xA2]"

definition summary_header :: "audit_results \<Rightarrow> fstring list" where
  "summary_header results =
     [[Lit (newline @ replicate 80 CHR ''='')],
      [Lit (glyph_chart @ '' GITLAB CI/CD VARIABLES AUDIT SUMMARY'')],
      [Lit (replicate 80 CHR ''='')],
      [Lit ''Audit Date: '', Fmt (JStr (audit_date results))],
      [Lit ''Total Projects Scanned: '', Fmt (JInt (total_projects results))],
      [Lit ''Projects with Secrets: '', Fmt (JInt (projects_with_secrets results))],
      [Lit ''Total Secrets Found: '', Fmt (JInt (total_secrets results))],
      [Lit (replicate 80 CHR ''='' @ newline)]]"

definition sorted_projects :: "audit_results \<Rightarrow> error + project_data list" where
  "sorted_projects results =
     py_sorted (\<lambda>x. JInt (int (length (variables x)))) True (projects results)"

definition sorted_variables :: "project_data \<Rightarrow> error + variable list" where
  "sorted_variables project = py_sorted (\<lambda>x. key x) False (variables project)"

definition variable_lines :: "variable \<Rightarrow> fstring list" where
  "variable_lines var =
     (let flags = (if py_truthy (protected var) then [glyph_lock @ '' Protected''] else [])
                @ (if py_truthy (masked var) then [glyph_mask @ '' Masked''] else []);
          scope = environment_scope var;
          var_type = variable_type var;
          flag_str = (if flags \<noteq> [] then py_join '' | '' flags else ''No flags'')
      in [[Lit (''   '' @ glyph_bullet @ '' ''), Fmt (key var)],
          [Lit ''     Type: '', Fmt var_type, Lit '' | Scope: '', Fmt scope, Lit '' | '', Lit flag_str]])"

definition project_header :: "project_data \<Rightarrow> fstring list" where
  "project_header project =
     [[Lit (newline @ glyph_folder @ '' Project: ''), Fmt (name project)],
      [Lit ''   Path: '', Fmt (path project)],
      [Lit ''   URL: '', Fmt (web_url project)],
      [Lit ''   Secrets: '', Fmt (JInt (int (length (variables project))))],
      [Lit (''   '' @ replicate 76 CHR ''-'')]]"

definition project_lines :: "project_data \<Rightarrow> error + fstring list" where
  "project_lines project =
     (case sorted_variables project of
        Inl e \<Rightarrow> Inl e
      | Inr vars \<Rightarrow> Inr (project_header project @ concat (map variable_lines vars)))"

fun render_projects :: "project_data list \<Rightarrow> error + fstring list" where
  "render_projects [] = Inr []"
| "render_projects (project # rest) =
     (case project_lines project of
        Inl e \<Rightarrow> Inl e
      | Inr ls \<Rightarrow> (case render_projects rest of Inl e \<Rightarrow> Inl e | Inr ls' \<Rightarrow> Inr (ls @ ls')))"

definition display_summary :: "audit_results \<Rightarrow> error + fstring list" where
  "display_summary results =
     (if projects results = []
      then Inr (summary_header results @ [[Lit ''No secrets found in any accessible projects.'']])
      else (case sorted_projects results of
              Inl e \<Rightarrow> Inl e
            | Inr ps \<Rightarrow>
                (case render_projects ps of
                   Inl e \<Rightarrow> Inl e
                 | Inr ls \<Rightarrow>
                     Inr (summary_header results @ ls @ [[Lit (newline @ replicate 80 CHR ''='')]]))))"

section \<open>Vocabulary for the statements\<close>

subsection \<open>Page requests of one enumeration\<close>

text \<open>
  \<open>page_log self log n\<close> is the request log after the first \<open>n\<close> page requests
  of an enumeration started at \<open>log\<close>; \<open>page_response self server log k\<close> is what
  the server answers to the \<open>k\<close>-th of them (pages count from 1).
  \<open>has_next\<close> is the continuation signal: a non-empty page whose
  \<^verbatim>\<open>x-next-page\<close> header is present and non-empty. \<open>collected\<close> concatenates the
  bodies of the first \<open>n\<close> pages, a failed request contributing nothing.
\<close>

definition page_log :: "auditor \<Rightarrow> request list \<Rightarrow> nat \<Rightarrow> request list" where
  "page_log self log n = log @ map (\<lambda>k. projects_request self (int k)) [1..<Suc n]"

definition page_response :: "auditor \<Rightarrow> backend \<Rightarrow> request list \<Rightarrow> nat \<Rightarrow> response" where
  "page_response self server log k =
     server (page_log self log (k - 1)) (projects_request self (int k))"

fun page_body :: "response \<Rightarrow> pydict list" where
  "page_body RequestException = []"
| "page_body (Ok hdrs page_projects) = page_projects"

fun has_next :: "response \<Rightarrow> bool" where
  "has_next RequestException = False"
| "has_next (Ok hdrs page_projects) =
     (page_projects \<noteq> [] \<and> hdrs ''x-next-page'' \<noteq> None \<and> hdrs ''x-next-page'' \<noteq> Some [])"

definition collected :: "auditor \<Rightarrow> backend \<Rightarrow> request list \<Rightarrow> nat \<Rightarrow> pydict list" where
  "collected self server log n =
     concat (map (\<lambda>k. page_body (page_response self server log k)) [1..<Suc n])"

subsection \<open>Fetches of one audit run\<close>

text \<open>
  \<open>fetched\<close> pairs each project of the enumeration with what its variable fetch
  returned in the run; \<open>entries\<close> builds the report entries of the pairs whose
  fetch was not empty.
\<close>

fun fetched ::
  "auditor \<Rightarrow> backend \<Rightarrow> request list \<Rightarrow> pydict list \<Rightarrow> (pydict \<times> pydict list) list" where
  "fetched self server log [] = []"
| "fetched self server log (project # rest) =
     (case py_getitem project ''id'' of
        Inl e \<Rightarrow> []
      | Inr project_id \<Rightarrow>
          (case get_project_variables self server log project_id of
             (vars, log') \<Rightarrow> (project, vars) # fetched self server log' rest))"

fun entry :: "pydict \<times> pydict list \<Rightarrow> error + project_data" where
  "entry (project, vars) =
     (case py_getitem project ''id'' of
        Inl e \<Rightarrow> Inl e
      | Inr project_id \<Rightarrow>
          (case py_getitem project ''path_with_namespace'' of
             Inl e \<Rightarrow> Inl e
           | Inr project_path \<Rightarrow> make_project_data project project_id project_path vars))"

fun entries :: "(pydict \<times> pydict list) list \<Rightarrow> error + project_data list" where
  "entries [] = Inr []"
| "entries (f # fs) =
     (if snd f = [] then entries fs
      else (case entry f of
              Inl e \<Rightarrow> Inl e
            | Inr pd \<Rightarrow> (case entries fs of Inl e \<Rightarrow> Inl e | Inr pds \<Rightarrow> Inr (pd # pds))))"

subsection \<open>Stored variable records\<close>

text \<open>
  \<open>stored_from sv var\<close>: the record \<open>sv\<close> holds, for the variable object \<open>var\<close>,
  the object's key (\<^verbatim>\<open>None\<close> when missing) and its \<^verbatim>\<open>protected\<close>, \<^verbatim>\<open>masked\<close>,
  \<^verbatim>\<open>environment_scope\<close> and \<^verbatim>\<open>variable_type\<close> with the documented defaults.
  \<open>same_fields\<close>: two objects agree on these five fields, whatever else they
  hold.
\<close>

definition stored_from :: "variable \<Rightarrow> pydict \<Rightarrow> bool" where
  "stored_from sv var =
     (key sv = (case map_of var ''key'' of None \<Rightarrow> JNull | Some v \<Rightarrow> v) \<and>
      protected sv = (case map_of var ''protected'' of None \<Rightarrow> JBool False | Some v \<Rightarrow> v) \<and>
      masked sv = (case map_of var ''masked'' of None \<Rightarrow> JBool False | Some v \<Rightarrow> v) \<and>
      environment_scope sv
        = (case map_of var ''environment_scope'' of None \<Rightarrow> JStr ''*'' | Some v \<Rightarrow> v) \<and>
      variable_type sv
        = (case map_of var ''variable_type'' of None \<Rightarrow> JStr ''env_var'' | Some v \<Rightarrow> v))"


subsection \<open>String keys\<close>

fun key_str :: "json \<Rightarrow> string" where
  "key_str (JStr s) = s"
| "key_str _ = []"

fun is_str :: "json \<Rightarrow> bool" where
  "is_str (JStr s) = True"
| "is_str _ = False"

section \<open>Scenarios\<close>

definition project_a :: pydict where
  "project_a = [(''id'', JInt 1), (''name'', JStr ''a''),
                (''path_with_namespace'', JStr ''g/a''), (''web_url'', JStr ''https://gitlab.com/g/a'')]"

definition project_b :: pydict where
  "project_b = [(''id'', JInt 2), (''name'', JStr ''b''),
                (''path_with_namespace'', JStr ''g/b''), (''web_url'', JStr ''https://gitlab.com/g/b'')]"


definition failing_server :: backend where
  "failing_server log req =
     (if map_of (req_params req) ''page'' = Some (PInt 1)
      then Ok [''x-next-page'' \<mapsto> ''2''] [project_a, project_b]
      else RequestException)"

definition auditor0 :: auditor where
  "auditor0 = init ''t'' ''https://gitlab.com/''"

definition var_db :: pydict where
  "var_db = [(''key'', JStr ''DB_PASSWORD''), (''value'', JStr ''s3cret''),
             (''protected'', JBool True), (''masked'', JBool True),
             (''environment_scope'', JStr ''production''), (''variable_type'', JStr ''env_var'')]"

definition var_tok :: pydict where
  "var_tok = [(''variable_type'', JStr ''file''), (''key'', JStr ''API_TOKEN''), (''value'', JStr ''t0ken'')]"

text \<open>
  One page with the projects a and b; the variables of project 1 are two
  objects, every other fetch fails.
\<close>

definition audit_server :: backend where
  "audit_server log req =
     (if req_params req \<noteq> [] then Ok Map.empty [project_a, project_b]
      else if Fmt (JInt 1) \<in> set (req_url req) then Ok Map.empty [var_db, var_tok]
      else RequestException)"

definition report0 :: audit_results where
  "report0 =
     \<lparr> audit_date = ''2024-01-01T00:00:00'',
       total_projects = 2,
       projects_with_secrets = 1,
       total_secrets = 2,
       projects =
         [\<lparr> id' = JInt 1, name = JStr ''a'', path = JStr ''g/a'',
             web_url = JStr ''https://gitlab.com/g/a'',
             variables =
               [\<lparr> key = JStr ''DB_PASSWORD'', protected = JBool True, masked = JBool True,
                   environment_scope = JStr ''production'', variable_type = JStr ''env_var'' \<rparr>,
                \<lparr> key = JStr ''API_TOKEN'', protected = JBool False, masked = JBool False,
                   environment_scope = JStr ''*'', variable_type = JStr ''file'' \<rparr>] \<rparr>] \<rparr>"

definition log0 :: "request list" where
  "log0 = [projects_request auditor0 1,
           variables_request auditor0 (JInt 1),
           variables_request auditor0 (JInt 2)]"





text \<open>
  A report of three projects in enumeration order b, a, c: a has three
  variables, b and c one each.
\<close>

definition va_b :: variable where
  "va_b = \<lparr> key = JStr ''B_KEY'', protected = JBool True, masked = JBool False,
             environment_scope = JStr ''*'', variable_type = JStr ''env_var'' \<rparr>"

definition va_a :: variable where
  "va_a = \<lparr> key = JStr ''A_KEY'', protected = JBool False, masked = JBool False,
             environment_scope = JStr ''*'', variable_type = JStr ''env_var'' \<rparr>"

definition va_c :: variable where
  "va_c = \<lparr> key = JStr ''a_key'', protected = JBool True, masked = JBool True,
             environment_scope = JStr ''*'', variable_type = JStr ''file'' \<rparr>"

definition entry_a :: project_data where
  "entry_a = \<lparr> id' = JInt 1, name = JStr ''a'', path = JStr ''g/a'',
                web_url = JStr ''https://gitlab.com/g/a'', variables = [va_b, va_a, va_c] \<rparr>"

definition entry_b :: project_data where
  "entry_b = \<lparr> id' = JInt 2, name = JStr ''b'', path = JStr ''g/b'',
                web_url = JStr ''https://gitlab.com/g/b'', variables = [va_b] \<rparr>"

definition entry_c :: project_data where
  "entry_c = \<lparr> id' = JInt 3, name = JStr ''c'', path = JStr ''g/c'',
                web_url = JStr ''https://gitlab.com/g/c'', variables = [va_a] \<rparr>"

definition report_bac :: audit_results where
  "report_bac = \<lparr> audit_date = ''2024-01-01T00:00:00'', total_projects = 3,
                   projects_with_secrets = 3, total_secrets = 5,
                   projects = [entry_b, entry_a, entry_c] \<rparr>"

text \<open>
  A server with the single project a, whose variable fetch returns the given
  objects, and the report of the audit against it.
\<close>

definition single_project_server :: "pydict list \<Rightarrow> backend" where
  "single_project_server vars log req =
     (if req_params req \<noteq> [] then Ok Map.empty [project_a] else Ok Map.empty vars)"

definition entry_single :: "variable list \<Rightarrow> project_data" where
  "entry_single vars =
     \<lparr> id' = JInt 1, name = JStr ''a'', path = JStr ''g/a'',
       web_url = JStr ''https://gitlab.com/g/a'', variables = vars \<rparr>"

definition report_single :: "variable list \<Rightarrow> audit_results" where
  "report_single vars =
     \<lparr> audit_date = ''2024-01-01T00:00:00'', total_projects = 1,
       projects_with_secrets = 1, total_secrets = int (length vars),
       projects = [entry_single vars] \<rparr>"

definition log_single :: "request list" where
  "log_single = [projects_request auditor0 1, variables_request auditor0 (JInt 1)]"

text \<open>
  One key defined for two environment scopes, as GitLab allows.
\<close>

definition var_prod :: pydict where
  "var_prod = [(''key'', JStr ''DATABASE_URL''), (''value'', JStr ''postgres://prod''),
               (''protected'', JBool True), (''masked'', JBool True),
               (''environment_scope'', JStr ''production'')]"

definition var_stag :: pydict where
  "var_stag = [(''key'', JStr ''DATABASE_URL''), (''value'', JStr ''postgres://staging''),
               (''masked'', JBool True), (''environment_scope'', JStr ''staging'')]"

definition vd_prod :: variable where
  "vd_prod = \<lparr> key = JStr ''DATABASE_URL'', protected = JBool True, masked = JBool True,
                environment_scope = JStr ''production'', variable_type = JStr ''env_var'' \<rparr>"

definition vd_stag :: variable where
  "vd_stag = \<lparr> key = JStr ''DATABASE_URL'', protected = JBool False, masked = JBool True,
                environment_scope = JStr ''staging'', variable_type = JStr ''env_var'' \<rparr>"

text \<open>A variable object without a \<^verbatim>\<open>key\<close> field, and what is stored for it.\<close>

definition var_nokey :: pydict where
  "var_nokey = [(''protected'', JBool True), (''value'', JStr ''s3cret'')]"

definition stored_nokey :: variable where
  "stored_nokey = \<lparr> key = JNull, protected = JBool True, masked = JBool False,
                     environment_scope = JStr ''*'', variable_type = JStr ''env_var'' \<rparr>"

definition stored_tok :: variable where
  "stored_tok = \<lparr> key = JStr ''API_TOKEN'', protected = JBool False, masked = JBool False,
                   environment_scope = JStr ''*'', variable_type = JStr ''file'' \<rparr>"

section \<open>Project enumeration\<close>

lemma page_log_Suc:
  "page_log self log (Suc n) = page_log self log n @ [projects_request self (int (Suc n))]"
  by (simp add: page_log_def)

lemma collected_Suc:
  "collected self server log (Suc n) =
     collected self server log n @ page_body (page_response self server log (Suc n))"
  by (simp add: collected_def)

lemma loop_step_next:
  assumes "has_next (page_response self server log (Suc n))"
  shows "get_all_projects_loop self server (collected self server log n) (int n + 1) (page_log self log n)
       = get_all_projects_loop self server (collected self server log (Suc n)) (int (Suc n) + 1)
           (page_log self log (Suc n))"
proof -
  obtain hdrs ps where r: "page_response self server log (Suc n) = Ok hdrs ps"
    using assms by (cases "page_response self server log (Suc n)") auto
  then have s: "server (page_log self log n) (projects_request self (int n + 1)) = Ok hdrs ps"
    by (simp add: page_response_def add.commute)
  from assms r obtain v where ne: "ps \<noteq> []" "hdrs ''x-next-page'' = Some v" "v \<noteq> []"
    by auto
  have "get_all_projects_loop self server (collected self server log n) (int n + 1) (page_log self log n)
      = get_all_projects_loop self server (collected self server log n @ ps) (int n + 1 + 1)
          (page_log self log n @ [projects_request self (int n + 1)])"
    by (subst get_all_projects_loop.simps) (simp add: s ne)
  then show ?thesis
    by (simp add: collected_Suc page_log_Suc r add.commute)
qed

lemma loop_advance:
  "(\<forall>k\<in>{1..n}. has_next (page_response self server log k)) \<Longrightarrow>
   get_all_projects_loop self server [] 1 log
     = get_all_projects_loop self server (collected self server log n) (int n + 1) (page_log self log n)"
proof (induction n)
  case 0
  show ?case by (simp add: collected_def page_log_def)
next
  case (Suc n)
  then have "get_all_projects_loop self server [] 1 log
     = get_all_projects_loop self server (collected self server log n) (int n + 1) (page_log self log n)"
    by simp
  also have "\<dots> = get_all_projects_loop self server (collected self server log (Suc n)) (int (Suc n) + 1)
           (page_log self log (Suc n))"
    using Suc.prems by (intro loop_step_next) simp
  finally show ?case .
qed

lemma loop_step_stop:
  assumes "\<not> has_next (page_response self server log (Suc n))"
  shows "get_all_projects_loop self server (collected self server log n) (int n + 1) (page_log self log n)
       = Some (collected self server log (Suc n), page_log self log (Suc n))"
proof (cases "page_response self server log (Suc n)")
  case RequestException
  then have "server (page_log self log n) (projects_request self (int n + 1)) = RequestException"
    by (simp add: page_response_def add.commute)
  then have "get_all_projects_loop self server (collected self server log n) (int n + 1) (page_log self log n)
      = Some (collected self server log n, page_log self log n @ [projects_request self (int n + 1)])"
    by (subst get_all_projects_loop.simps) simp
  then show ?thesis
    by (simp add: collected_Suc page_log_Suc RequestException add.commute)
next
  case (Ok hdrs ps)
  then have s: "server (page_log self log n) (projects_request self (int n + 1)) = Ok hdrs ps"
    by (simp add: page_response_def add.commute)
  have "get_all_projects_loop self server (collected self server log n) (int n + 1) (page_log self log n)
      = Some (collected self server log n @ ps, page_log self log n @ [projects_request self (int n + 1)])"
    using assms Ok by (subst get_all_projects_loop.simps) (auto simp add: s)
  then show ?thesis
    by (simp add: collected_Suc page_log_Suc Ok add.commute)
qed

lemma loop_stops:
  "(\<forall>k\<in>{1..n}. has_next (page_response self server log k)) \<Longrightarrow>
   \<not> has_next (page_response self server log (Suc n)) \<Longrightarrow>
   get_all_projects self server log = Some (collected self server log (Suc n), page_log self log (Suc n))"
  unfolding get_all_projects_def
  using loop_advance [of n self server log] loop_step_stop [of self server log n]
  by simp



text \<open>
  Claim C4. When the request for some page \<open>k\<close> fails with a transport error,
  \<^verbatim>\<open>get_all_projects\<close> returns a value (no error reaches the caller); when every
  page before \<open>k\<close> signalled a next page, so that the failing request is made,
  enumeration stops at that request, the \<open>k\<close>-th, and the value returned is
  exactly the projects of the \<open>k - 1\<close> pages that succeeded before it.
\<close>

theorem get_all_projects_transport_error:
  assumes "1 \<le> k" and "page_response self server log k = RequestException"
  shows "(\<exists>r. get_all_projects self server log = Some r) \<and>
         ((\<forall>j\<in>{1..<k}. has_next (page_response self server log j)) \<longrightarrow>
            get_all_projects self server log
              = Some (collected self server log (k - 1), page_log self log k))"
proof
  from assms obtain m where k: "k = Suc m" by (cases k) auto
  with assms(2) have "\<not> has_next (page_response self server log (Suc m))" by simp
  then obtain n where stop: "\<not> has_next (page_response self server log (Suc n))"
    and least: "\<forall>i<n. has_next (page_response self server log (Suc i))"
    using exists_least_iff [of "\<lambda>i. \<not> has_next (page_response self server log (Suc i))"]
    by auto
  have "\<forall>j\<in>{1..n}. has_next (page_response self server log j)"
  proof
    fix j assume "j \<in> {1..n}"
    then obtain i where "j = Suc i" "i < n" by (cases j) auto
    with least show "has_next (page_response self server log j)" by simp
  qed
  from loop_stops [OF this stop]
  show "\<exists>r. get_all_projects self server log = Some r" by blast
next
  from assms obtain m where k: "k = Suc m" by (cases k) auto
  show "(\<forall>j\<in>{1..<k}. has_next (page_response self server log j)) \<longrightarrow>
            get_all_projects self server log
              = Some (collected self server log (k - 1), page_log self log k)"
  proof
    assume "\<forall>j\<in>{1..<k}. has_next (page_response self server log j)"
    with k have before: "\<forall>j\<in>{1..m}. has_next (page_response self server log j)" by auto
    from assms(2) k have stop: "\<not> has_next (page_response self server log (Suc m))" by simp
    from loop_stops [OF before stop] assms(2) k
    show "get_all_projects self server log
              = Some (collected self server log (k - 1), page_log self log k)"
      by (simp add: collected_Suc)
  qed
qed


text \<open>
  Page 1 answers two projects and announces a next page; the request for page 2
  fails. The two projects are returned after two requests.
\<close>

theorem get_all_projects_transport_error_witness:
  "(1::nat) \<le> 2 \<and>
   page_response (init ''t'' ''https://gitlab.com/'') failing_server [] 2 = RequestException \<and>
   has_next (page_response (init ''t'' ''https://gitlab.com/'') failing_server [] 1) \<and>
   get_all_projects (init ''t'' ''https://gitlab.com/'') failing_server []
     = Some ([project_a, project_b],
             [projects_request (init ''t'' ''https://gitlab.com/'') 1,
              projects_request (init ''t'' ''https://gitlab.com/'') 2])"
proof -
  let ?self = "init ''t'' ''https://gitlab.com/''"
  have p1: "page_response ?self failing_server [] (Suc 0) = Ok [''x-next-page'' \<mapsto> ''2''] [project_a, project_b]"
    by (simp add: page_response_def failing_server_def projects_request_def)
  have p2: "page_response ?self failing_server [] 2 = RequestException"
    by (simp add: page_response_def failing_server_def projects_request_def page_log_def)
  have a: "\<forall>j\<in>{1..<2}. has_next (page_response ?self failing_server [] j)"
    by (simp add: p1 numeral_2_eq_2 atLeastLessThanSuc)
  have c: "collected ?self failing_server [] (2 - 1) = [project_a, project_b]"
    using p1 by (simp add: collected_def)
  have d: "page_log ?self [] 2 = [projects_request ?self 1, projects_request ?self 2]"
    by (simp add: page_log_def numeral_2_eq_2)
  from get_all_projects_transport_error [of 2 ?self failing_server "[]"] p1 p2 a c d
  show ?thesis by simp
qed

section \<open>The audit loop\<close>

lemma audit_loop_run:
  "audit_loop self server ps res log = Inr (res', log') \<Longrightarrow>
   map fst (fetched self server log ps) = ps \<and>
   (\<exists>es. entries (fetched self server log ps) = Inr es \<and>
         length es = length (filter (\<lambda>f. snd f \<noteq> []) (fetched self server log ps)) \<and>
         res' = res\<lparr> projects_with_secrets := projects_with_secrets res + int (length es),
                     total_secrets := total_secrets res
                        + (\<Sum>f\<leftarrow>fetched self server log ps. int (length (snd f))),
                     projects := projects res @ es \<rparr>)"
proof (induction ps arbitrary: res log)
  case Nil
  then show ?case by simp
next
  case (Cons p ps)
  from Cons.prems obtain pid where pid: "py_getitem p ''id'' = Inr pid"
    by (cases "py_getitem p ''id''") auto
  from Cons.prems pid obtain pth where pth: "py_getitem p ''path_with_namespace'' = Inr pth"
    by (cases "py_getitem p ''path_with_namespace''") auto
  obtain vars lg where g: "get_project_variables self server log pid = (vars, lg)"
    by (cases "get_project_variables self server log pid")
  show ?case
  proof (cases "vars = []")
    case True
    with Cons.prems pid pth g have "audit_loop self server ps res lg = Inr (res', log')"
      by simp
    from Cons.IH [OF this] True pid g show ?thesis
      by simp
  next
    case False
    with Cons.prems pid pth g obtain pd where pd: "make_project_data p pid pth vars = Inr pd"
      by (cases "make_project_data p pid pth vars") auto
    let ?res = "res\<lparr> projects_with_secrets := projects_with_secrets res + 1,
                       total_secrets := total_secrets res + int (length vars),
                       projects := projects res @ [pd] \<rparr>"
    from Cons.prems pid pth g False pd have "audit_loop self server ps ?res lg = Inr (res', log')"
      by simp
    from Cons.IH [OF this] obtain es where
      m: "map fst (fetched self server lg ps) = ps" and
      e: "entries (fetched self server lg ps) = Inr es" and
      l: "length es = length (filter (\<lambda>f. snd f \<noteq> []) (fetched self server lg ps))" and
      r: "res' = ?res\<lparr> projects_with_secrets := projects_with_secrets ?res + int (length es),
                     total_secrets := total_secrets ?res
                        + (\<Sum>f\<leftarrow>fetched self server lg ps. int (length (snd f))),
                     projects := projects ?res @ es \<rparr>"
      by blast
    have "entries (fetched self server log (p # ps)) = Inr (pd # es)"
      using pid pth g False pd e by simp
    moreover have "length (pd # es) = length (filter (\<lambda>f. snd f \<noteq> []) (fetched self server log (p # ps)))"
      using pid g False l by simp
    moreover have "res' = res\<lparr> projects_with_secrets := projects_with_secrets res + int (length (pd # es)),
                     total_secrets := total_secrets res
                        + (\<Sum>f\<leftarrow>fetched self server log (p # ps). int (length (snd f))),
                     projects := projects res @ (pd # es) \<rparr>"
      using r pid g by simp
    moreover have "map fst (fetched self server log (p # ps)) = p # ps"
      using m pid g by simp
    ultimately show ?thesis by blast
  qed
qed

lemma make_project_data_variables:
  "make_project_data p pid pth vars = Inr pd \<Longrightarrow>
   variables pd = map project_variable vars \<and> id' pd = pid"
  by (auto simp: make_project_data_def split: sum.splits)

lemma entry_variables:
  "entry f = Inr pd \<Longrightarrow>
   variables pd = map project_variable (snd f) \<and> Inr (id' pd) = py_getitem (fst f) ''id''"
  by (cases f) (auto split: sum.splits dest: make_project_data_variables)

lemma entries_total:
  "entries fs = Inr es \<Longrightarrow>
   (\<Sum>f\<leftarrow>fs. int (length (snd f))) = (\<Sum>p\<leftarrow>es. int (length (variables p)))"
proof (induction fs arbitrary: es)
  case Nil
  then show ?case by simp
next
  case (Cons f fs)
  show ?case
  proof (cases "snd f = []")
    case True
    with Cons show ?thesis by simp
  next
    case False
    with Cons.prems obtain pd pds where e: "entry f = Inr pd" "entries fs = Inr pds" "es = pd # pds"
      by (auto split: sum.splits)
    with Cons.IH [of pds] entry_variables [of f pd] show ?thesis by simp
  qed
qed

lemma entries_ids:
  "entries fs = Inr es \<Longrightarrow>
   map (\<lambda>p. Inr (id' p)) es
     = map (\<lambda>f. py_getitem (fst f) ''id'') (filter (\<lambda>f. snd f \<noteq> []) fs)"
proof (induction fs arbitrary: es)
  case Nil
  then show ?case by simp
next
  case (Cons f fs)
  show ?case
  proof (cases "snd f = []")
    case True
    with Cons show ?thesis by simp
  next
    case False
    with Cons.prems obtain pd pds where e: "entry f = Inr pd" "entries fs = Inr pds" "es = pd # pds"
      by (auto split: sum.splits)
    with Cons.IH [of pds] entry_variables [of f pd] False show ?thesis by simp
  qed
qed

lemma entries_skip:
  assumes "i < length fs" and "snd (fs ! i) = []"
  shows "entries (take i fs @ drop (Suc i) fs) = entries fs"
    and "filter (\<lambda>f. snd f \<noteq> []) (take i fs @ drop (Suc i) fs) = filter (\<lambda>f. snd f \<noteq> []) fs"
    and "(\<Sum>f\<leftarrow>take i fs @ drop (Suc i) fs. int (length (snd f))) = (\<Sum>f\<leftarrow>fs. int (length (snd f)))"
proof -
  have app: "entries (xs @ ys) = (case entries xs of Inl e \<Rightarrow> Inl e
               | Inr a \<Rightarrow> (case entries ys of Inl e \<Rightarrow> Inl e | Inr b \<Rightarrow> Inr (a @ b)))" for xs ys
    by (induction xs) (auto split: sum.splits)
  have split: "fs = take i fs @ fs ! i # drop (Suc i) fs"
    using assms(1) by (rule id_take_nth_drop)
  have "entries fs = entries (take i fs @ fs ! i # drop (Suc i) fs)"
    using split by simp
  also have "\<dots> = entries (take i fs @ drop (Suc i) fs)"
  proof -
    have "entries (fs ! i # drop (Suc i) fs) = entries (drop (Suc i) fs)"
      using assms(2) by simp
    then show ?thesis by (simp only: app)
  qed
  finally show "entries (take i fs @ drop (Suc i) fs) = entries fs" by simp
  have "filter (\<lambda>f. snd f \<noteq> []) fs
          = filter (\<lambda>f. snd f \<noteq> []) (take i fs @ fs ! i # drop (Suc i) fs)"
    using split by simp
  also have "\<dots> = filter (\<lambda>f. snd f \<noteq> []) (take i fs @ drop (Suc i) fs)"
    using assms(2) by simp
  finally show "filter (\<lambda>f. snd f \<noteq> []) (take i fs @ drop (Suc i) fs) = filter (\<lambda>f. snd f \<noteq> []) fs"
    by simp
  have "(\<Sum>f\<leftarrow>fs. int (length (snd f)))
          = (\<Sum>f\<leftarrow>take i fs @ fs ! i # drop (Suc i) fs. int (length (snd f)))"
    using split by simp
  also have "\<dots> = (\<Sum>f\<leftarrow>take i fs @ drop (Suc i) fs. int (length (snd f)))"
    using assms(2) by simp
  finally show "(\<Sum>f\<leftarrow>take i fs @ drop (Suc i) fs. int (length (snd f))) = (\<Sum>f\<leftarrow>fs. int (length (snd f)))"
    by simp
qed

lemma audit_secrets_run:
  assumes "audit_secrets self server now log = Some (Inr (r, log'))"
  obtains ps lg es where
    "get_all_projects self server log = Some (ps, lg)"
    "map fst (fetched self server lg ps) = ps"
    "entries (fetched self server lg ps) = Inr es"
    "length es = length (filter (\<lambda>f. snd f \<noteq> []) (fetched self server lg ps))"
    "r = \<lparr> audit_date = now, total_projects = int (length ps),
           projects_with_secrets = int (length es),
           total_secrets = (\<Sum>f\<leftarrow>fetched self server lg ps. int (length (snd f))),
           projects = es \<rparr>"
proof -
  from assms obtain ps lg where g: "get_all_projects self server log = Some (ps, lg)"
    and l: "audit_loop self server ps
              \<lparr> audit_date = now, total_projects = int (length ps), projects_with_secrets = 0,
                total_secrets = 0, projects = [] \<rparr> lg = Inr (r, log')"
    by (auto simp: audit_secrets_def split: option.splits)
  from audit_loop_run [OF l] g that show ?thesis
    by auto
qed

text \<open>
  Claim C1. In every report returned by \<^verbatim>\<open>audit_secrets\<close>, \<^verbatim>\<open>total_secrets\<close> is the
  sum of the lengths of the \<^verbatim>\<open>variables\<close> of the entries of \<^verbatim>\<open>projects\<close>,
  \<^verbatim>\<open>projects_with_secrets\<close> is the number of entries, and
  \<^verbatim>\<open>projects_with_secrets\<close> is at most \<^verbatim>\<open>total_projects\<close>.
\<close>

theorem audit_secrets_invariant:
  assumes "audit_secrets self server now log = Some (Inr (r, log'))"
  shows "total_secrets r = (\<Sum>p\<leftarrow>projects r. int (length (variables p))) \<and>
         projects_with_secrets r = int (length (projects r)) \<and>
         projects_with_secrets r \<le> total_projects r"
proof -
  from assms obtain ps lg es where
    m: "map fst (fetched self server lg ps) = ps" and
    e: "entries (fetched self server lg ps) = Inr es" and
    l: "length es = length (filter (\<lambda>f. snd f \<noteq> []) (fetched self server lg ps))" and
    r: "r = \<lparr> audit_date = now, total_projects = int (length ps),
           projects_with_secrets = int (length es),
           total_secrets = (\<Sum>f\<leftarrow>fetched self server lg ps. int (length (snd f))),
           projects = es \<rparr>"
    by (rule audit_secrets_run)
  have "length es \<le> length (fetched self server lg ps)"
    using l by simp
  also have "\<dots> = length ps"
    using m by (metis length_map)
  finally have "length es \<le> length ps" .
  with r entries_total [OF e] show ?thesis by simp
qed

lemma distinct_map_nth_notin:
  assumes "distinct (map g xs)" and "i < length xs"
  shows "g (xs ! i) \<notin> g ` set (take i xs @ drop (Suc i) xs)"
proof -
  have "distinct (map g (take i xs @ xs ! i # drop (Suc i) xs))"
    using assms id_take_nth_drop [OF assms(2)] by simp
  then show ?thesis by auto
qed

text \<open>
  Claim C2. Let the project at position \<open>i\<close> of the enumeration have a variable
  fetch that returned the empty list (a failed fetch included). The project is
  counted in \<^verbatim>\<open>total_projects\<close>; the entries of \<^verbatim>\<open>projects\<close> and both counters are
  those built from the fetches of the other positions alone; and when project
  ids are distinct, no entry carries the id of that project.
\<close>

theorem audit_secrets_skips_empty:
  assumes "audit_secrets self server now log = Some (Inr (r, log'))"
    and "get_all_projects self server log = Some (ps, lg)"
    and "i < length ps"
    and "snd (fetched self server lg ps ! i) = []"
  shows "fst (fetched self server lg ps ! i) = ps ! i \<and>
         total_projects r = int (length ps) \<and>
         entries (take i (fetched self server lg ps) @ drop (Suc i) (fetched self server lg ps))
           = Inr (projects r) \<and>
         projects_with_secrets r
           = int (length (filter (\<lambda>f. snd f \<noteq> [])
                (take i (fetched self server lg ps) @ drop (Suc i) (fetched self server lg ps)))) \<and>
         total_secrets r
           = (\<Sum>f\<leftarrow>take i (fetched self server lg ps) @ drop (Suc i) (fetched self server lg ps).
                int (length (snd f))) \<and>
         (distinct (map (\<lambda>p. py_getitem p ''id'') ps) \<longrightarrow>
            py_getitem (ps ! i) ''id'' \<notin> (\<lambda>p. Inr (id' p)) ` set (projects r))"
proof -
  let ?F = "fetched self server lg ps"
  let ?G = "take i ?F @ drop (Suc i) ?F"
  from assms(1) obtain ps' lg' es where
    g: "get_all_projects self server log = Some (ps', lg')" and
    m': "map fst (fetched self server lg' ps') = ps'" and
    e': "entries (fetched self server lg' ps') = Inr es" and
    l': "length es = length (filter (\<lambda>f. snd f \<noteq> []) (fetched self server lg' ps'))" and
    r': "r = \<lparr> audit_date = now, total_projects = int (length ps'),
           projects_with_secrets = int (length es),
           total_secrets = (\<Sum>f\<leftarrow>fetched self server lg' ps'. int (length (snd f))),
           projects = es \<rparr>"
    by (rule audit_secrets_run)
  from g assms(2) have eq: "ps' = ps" "lg' = lg" by simp_all
  note m = m' [unfolded eq] and e = e' [unfolded eq] and l = l' [unfolded eq] and r = r' [unfolded eq]
  have len: "length ?F = length ps"
    using m by (metis length_map)
  with assms(3) have i: "i < length ?F" by simp
  have fst_i: "fst (?F ! i) = ps ! i"
    using m i by (metis nth_map)
  note skip = entries_skip [OF i assms(4)]
  have ids: "distinct (map (\<lambda>p. py_getitem p ''id'') ps) \<longrightarrow>
            py_getitem (ps ! i) ''id'' \<notin> (\<lambda>p. Inr (id' p)) ` set (projects r)"
  proof
    assume d: "distinct (map (\<lambda>p. py_getitem p ''id'') ps)"
    have "(\<lambda>p. Inr (id' p)) ` set es = set (map (\<lambda>p. Inr (id' p)) es)"
      by simp
    also have "\<dots> = set (map (\<lambda>f. py_getitem (fst f) ''id'') (filter (\<lambda>f. snd f \<noteq> []) ?G))"
      using entries_ids [OF e] skip(2) by simp
    also have "\<dots> \<subseteq> (\<lambda>p. py_getitem p ''id'') ` set (map fst ?G)"
      by auto
    also have "map fst ?G = take i ps @ drop (Suc i) ps"
      using m by (simp add: take_map [symmetric] drop_map [symmetric])
    finally have "(\<lambda>p. Inr (id' p)) ` set es
                    \<subseteq> (\<lambda>p. py_getitem p ''id'') ` set (take i ps @ drop (Suc i) ps)" .
    with distinct_map_nth_notin [OF d assms(3)] r
    show "py_getitem (ps ! i) ''id'' \<notin> (\<lambda>p. Inr (id' p)) ` set (projects r)"
      by auto
  qed
  from fst_i r e l skip ids show ?thesis
    by simp
qed

lemma audit_server_projects:
  "get_all_projects auditor0 audit_server [] = Some ([project_a, project_b], [projects_request auditor0 1])"
proof -
  have p: "page_response auditor0 audit_server [] (Suc 0) = Ok Map.empty [project_a, project_b]"
    by (simp add: page_response_def audit_server_def projects_request_def)
  then have "\<not> has_next (page_response auditor0 audit_server [] (Suc 0))"
    by simp
  from loop_stops [of 0 auditor0 audit_server "[]", OF _ this] p
  show ?thesis by (simp add: collected_def page_log_def)
qed

lemma audit_server_fetched:
  "fetched auditor0 audit_server [projects_request auditor0 1] [project_a, project_b]
     = [(project_a, [var_db, var_tok]), (project_b, [])]"
  by (simp add: py_getitem_def project_a_def project_b_def get_project_variables_def
      audit_server_def variables_request_def)

lemma audit_server_report:
  "audit_secrets auditor0 audit_server ''2024-01-01T00:00:00'' [] = Some (Inr (report0, log0))"
  by (simp add: audit_secrets_def audit_server_projects py_getitem_def project_a_def project_b_def
      get_project_variables_def audit_server_def variables_request_def make_project_data_def
      project_variable_def py_get_def var_db_def var_tok_def report0_def log0_def)

text \<open>
  A run against a server with two projects, of which the first has two
  variables and the second a failing fetch.
\<close>

theorem audit_secrets_invariant_witness:
  "audit_secrets auditor0 audit_server ''2024-01-01T00:00:00'' [] = Some (Inr (report0, log0)) \<and>
   total_secrets report0 = 2 \<and>
   (\<Sum>p\<leftarrow>projects report0. int (length (variables p))) = 2 \<and>
   projects_with_secrets report0 = 1 \<and>
   length (projects report0) = 1 \<and>
   total_projects report0 = 2"
  using audit_secrets_invariant [OF audit_server_report] audit_server_report
  by (simp add: report0_def)

text \<open>
  In that run project b, at position 1, has an empty fetch: it is counted in
  \<^verbatim>\<open>total_projects\<close> and the report is built from the fetch of project a alone.
\<close>

theorem audit_secrets_skips_empty_witness:
  "audit_secrets auditor0 audit_server ''2024-01-01T00:00:00'' [] = Some (Inr (report0, log0)) \<and>
   get_all_projects auditor0 audit_server [] = Some ([project_a, project_b], [projects_request auditor0 1]) \<and>
   fetched auditor0 audit_server [projects_request auditor0 1] [project_a, project_b] ! 1 = (project_b, []) \<and>
   total_projects report0 = 2 \<and>
   entries [(project_a, [var_db, var_tok])] = Inr (projects report0) \<and>
   projects_with_secrets report0 = 1 \<and>
   total_secrets report0 = 2 \<and>
   distinct (map (\<lambda>p. py_getitem p ''id'') [project_a, project_b]) \<and>
   py_getitem project_b ''id'' \<notin> (\<lambda>p. Inr (id' p)) ` set (projects report0)"
proof -
  have d: "distinct (map (\<lambda>p. py_getitem p ''id'') [project_a, project_b])"
    by (simp add: py_getitem_def project_a_def project_b_def)
  have f: "snd (fetched auditor0 audit_server [projects_request auditor0 1] [project_a, project_b] ! 1) = []"
    unfolding audit_server_fetched by simp
  have i: "(1::nat) < length [project_a, project_b]" by simp
  note t = audit_secrets_skips_empty [OF audit_server_report audit_server_projects i f,
      unfolded audit_server_fetched]
  have n: "fetched auditor0 audit_server [projects_request auditor0 1] [project_a, project_b] ! 1
             = (project_b, [])"
    unfolding audit_server_fetched by simp
  from t d have "total_projects report0 = 2"
    and "entries [(project_a, [var_db, var_tok])] = Inr (projects report0)"
    and "projects_with_secrets report0 = 1"
    and "total_secrets report0 = 2"
    and "py_getitem project_b ''id'' \<notin> (\<lambda>p. Inr (id' p)) ` set (projects report0)"
    by simp_all
  with audit_server_report audit_server_projects n d show ?thesis
    by (simp only: simp_thms)
qed

section \<open>The variable fetch and what is stored\<close>





lemma stored_from_unique: "stored_from sv var \<Longrightarrow> stored_from sv' var \<Longrightarrow> sv = sv'"
  by (cases sv; cases sv') (simp add: stored_from_def)







section \<open>Sorting\<close>

lemma insort_lt_str:
  "\<forall>x\<in>set (x # ys). is_str (f x) \<Longrightarrow>
   insort_lt f x ys = Inr (insort_key (\<lambda>v. key_str (f v)) x ys)"
proof (induction ys)
  case Nil
  then show ?case by simp
next
  case (Cons y ys)
  from Cons.prems obtain a b where ab: "f x = JStr a" "f y = JStr b"
    by (cases "f x"; cases "f y") auto
  show ?case using Cons ab by (auto simp: not_less)
qed

lemma sort_lt_str:
  "\<forall>x\<in>set xs. is_str (f x) \<Longrightarrow> sort_lt f xs = Inr (sort_key (\<lambda>v. key_str (f v)) xs)"
proof (induction xs)
  case Nil
  then show ?case by simp
next
  case (Cons x xs)
  then have "sort_lt f xs = Inr (sort_key (\<lambda>v. key_str (f v)) xs)" by simp
  moreover have "\<forall>v\<in>set (x # sort_key (\<lambda>v. key_str (f v)) xs). is_str (f v)"
    using Cons.prems by simp
  ultimately show ?case
    by (simp add: insort_lt_str)
qed

lemma insort_lt_int:
  "insort_lt (\<lambda>v. JInt (g v)) x ys = Inr (insort_key g x ys)"
  by (induction ys) (auto simp: not_less)

lemma sort_lt_int:
  "sort_lt (\<lambda>v. JInt (g v)) xs = Inr (sort_key g xs)"
  by (induction xs) (auto simp: insort_lt_int)

lemma py_lt_None [simp]: "py_lt JNull y = Inl TypeError" "py_lt x JNull = Inl TypeError"
  by (cases y; simp) (cases x; simp)

lemma py_lt_error: "py_lt x y = Inl e \<Longrightarrow> e = TypeError"
  by (induction x y rule: py_lt.induct) (auto split: if_splits option.splits)

lemma insort_lt_error: "insort_lt f x ys = Inl e \<Longrightarrow> e = TypeError"
proof (induction ys)
  case Nil
  then show ?case by simp
next
  case (Cons y ys)
  show ?case
  proof (cases "py_lt (f y) (f x)")
    case (Inl e')
    with Cons.prems have "e = e'" by simp
    with py_lt_error [OF Inl] show ?thesis by simp
  next
    case (Inr lt)
    show ?thesis
    proof (cases lt)
      case True
      with Inr Cons.prems have "insort_lt f x ys = Inl e"
        by (cases "insort_lt f x ys") simp_all
      then show ?thesis by (rule Cons.IH)
    next
      case False
      with Inr Cons.prems show ?thesis by simp
    qed
  qed
qed

lemma sort_lt_error: "sort_lt f xs = Inl e \<Longrightarrow> e = TypeError"
proof (induction xs)
  case Nil
  then show ?case by simp
next
  case (Cons x xs)
  show ?case
  proof (cases "sort_lt f xs")
    case (Inl e')
    with Cons.prems have "e = e'" by simp
    with Cons.IH Inl show ?thesis by simp
  next
    case (Inr ys)
    with Cons.prems have "insort_lt f x ys = Inl e" by simp
    then show ?thesis by (rule insort_lt_error)
  qed
qed

lemma insort_lt_length: "insort_lt f x ys = Inr zs \<Longrightarrow> length zs = Suc (length ys)"
proof (induction ys arbitrary: zs)
  case Nil
  then show ?case by auto
next
  case (Cons y ys)
  show ?case
  proof (cases "py_lt (f y) (f x)")
    case (Inl e)
    with Cons.prems show ?thesis by simp
  next
    case (Inr lt)
    show ?thesis
    proof (cases lt)
      case True
      with Inr Cons.prems obtain zs' where z: "insort_lt f x ys = Inr zs'" "zs = y # zs'"
        by (cases "insort_lt f x ys") auto
      from Cons.IH [OF z(1)] z(2) show ?thesis by auto
    next
      case False
      with Inr Cons.prems show ?thesis by auto
    qed
  qed
qed

lemma sort_lt_length: "sort_lt f xs = Inr ys \<Longrightarrow> length ys = length xs"
proof (induction xs arbitrary: ys)
  case Nil
  then show ?case by simp
next
  case (Cons x xs)
  then show ?case
    by (cases "sort_lt f xs") (auto dest: insort_lt_length)
qed

lemma insort_lt_set: "insort_lt f x ys = Inr zs \<Longrightarrow> set zs = insert x (set ys)"
proof (induction ys arbitrary: zs)
  case Nil
  then show ?case by auto
next
  case (Cons y ys)
  show ?case
  proof (cases "py_lt (f y) (f x)")
    case (Inl e)
    with Cons.prems show ?thesis by simp
  next
    case (Inr lt)
    show ?thesis
    proof (cases lt)
      case True
      with Inr Cons.prems obtain zs' where z: "insort_lt f x ys = Inr zs'" "zs = y # zs'"
        by (cases "insort_lt f x ys") auto
      from Cons.IH [OF z(1)] z(2) show ?thesis by auto
    next
      case False
      with Inr Cons.prems show ?thesis by auto
    qed
  qed
qed

lemma sort_lt_set: "sort_lt f xs = Inr ys \<Longrightarrow> set ys = set xs"
proof (induction xs arbitrary: ys)
  case Nil
  then show ?case by simp
next
  case (Cons x xs)
  then show ?case
    by (cases "sort_lt f xs") (auto dest: insort_lt_set)
qed

lemma insort_lt_None:
  assumes "f x = JNull \<or> f y = JNull"
  shows "insort_lt f x (y # ys) = Inl TypeError"
proof -
  from assms have "py_lt (f y) (f x) = Inl TypeError"
    by (elim disjE) (simp_all only: py_lt_None)
  then show ?thesis
    by (simp only: insort_lt.simps sum.case)
qed

lemma sort_lt_None:
  assumes "x \<in> set xs" and "f x = JNull" and "2 \<le> length xs"
  shows "sort_lt f xs = Inl TypeError"
  using assms
proof (induction xs)
  case Nil
  then show ?case by simp
next
  case (Cons a xs)
  show ?case
  proof (cases "sort_lt f xs")
    case (Inl e)
    with sort_lt_error [OF Inl] show ?thesis by simp
  next
    case (Inr ys)
    from Cons.prems(3) have "xs \<noteq> []" by auto
    with sort_lt_length [OF Inr] obtain y ys' where ys: "ys = y # ys'"
      by (cases ys) auto
    have "f a = JNull \<or> f y = JNull"
    proof (cases "f a = JNull")
      case True
      then show ?thesis by simp
    next
      case False
      with Cons.prems(1,2) have in_xs: "x \<in> set xs" by auto
      have "\<not> 2 \<le> length xs"
      proof
        assume "2 \<le> length xs"
        from Cons.IH [OF in_xs Cons.prems(2) this] Inr show False by simp
      qed
      moreover from \<open>xs \<noteq> []\<close> have "0 < length xs" by simp
      ultimately have "length xs = 1" by linarith
      then obtain z where "xs = [z]" by (cases xs) auto
      with in_xs have "xs = [x]" by simp
      with Inr ys have "y = x" by simp
      with Cons.prems(2) show ?thesis by simp
    qed
    from insort_lt_None [of f a y ys', OF this] Inr ys show ?thesis
      by (simp only: sort_lt.simps sum.case)
  qed
qed

lemma py_sorted_int:
  "py_sorted (\<lambda>v. JInt (g v)) True xs = Inr (rev (sort_key g (rev xs)))"
  by (simp add: py_sorted_def sort_lt_int)

lemma py_sorted_str:
  "\<forall>x\<in>set xs. is_str (f x) \<Longrightarrow>
   py_sorted f False xs = Inr (sort_key (\<lambda>v. key_str (f v)) xs)"
  by (simp add: py_sorted_def sort_lt_str)

lemma render_projects_blocks:
  "render_projects ps = Inr ls \<Longrightarrow>
   \<exists>blocks. list_all2 (\<lambda>p b. project_lines p = Inr b) ps blocks \<and> ls = concat blocks"
proof (induction ps arbitrary: ls)
  case Nil
  then show ?case by simp
next
  case (Cons p ps)
  from Cons.prems obtain b ls' where b: "project_lines p = Inr b"
    and r: "render_projects ps = Inr ls'" and ls: "ls = b @ ls'"
    by (auto split: sum.splits)
  from Cons.IH [OF r] obtain blocks where
    "list_all2 (\<lambda>p b. project_lines p = Inr b) ps blocks" "ls' = concat blocks"
    by blast
  with b ls have "list_all2 (\<lambda>p b. project_lines p = Inr b) (p # ps) (b # blocks)
                  \<and> ls = concat (b # blocks)"
    by simp
  then show ?case by blast
qed

lemma project_lines_error: "project_lines p = Inl e \<Longrightarrow> e = TypeError"
  by (auto simp: project_lines_def sorted_variables_def py_sorted_def
      split: sum.splits dest: sort_lt_error)

lemma render_projects_error:
  "render_projects ps = Inl e \<Longrightarrow> e = TypeError"
  by (induction ps arbitrary: e) (auto split: sum.splits dest: project_lines_error)

lemma render_projects_fails:
  "p \<in> set ps \<Longrightarrow> project_lines p = Inl e \<Longrightarrow> render_projects ps = Inl TypeError"
proof -
  assume p: "p \<in> set ps" "project_lines p = Inl e"
  then have "\<exists>e'. render_projects ps = Inl e'"
    by (induction ps) (auto split: sum.splits)
  then show ?thesis using render_projects_error by blast
qed

section \<open>The console summary\<close>

text \<open>
  Claim C6. With a non-empty \<^verbatim>\<open>projects\<close>, the summary prints the projects in
  the order of \<^verbatim>\<open>sorted_projects\<close>, one block each between header and closing
  rule. That order is a rearrangement of \<^verbatim>\<open>projects\<close>, descending in the number
  of variables, in which projects with the same number keep the order they
  have in the report.
\<close>

theorem display_summary_project_order:
  "\<exists>ps. sorted_projects r = Inr ps \<and>
        mset ps = mset (projects r) \<and>
        sorted_wrt (\<lambda>p q. length (variables q) \<le> length (variables p)) ps \<and>
        (\<forall>k. filter (\<lambda>p. length (variables p) = k) ps
               = filter (\<lambda>p. length (variables p) = k) (projects r)) \<and>
        (\<forall>out. projects r \<noteq> [] \<and> display_summary r = Inr out \<longrightarrow>
           (\<exists>blocks. list_all2 (\<lambda>p b. project_lines p = Inr b) ps blocks \<and>
              out = summary_header r @ concat blocks
                      @ [[Lit (newline @ replicate 80 CHR ''='')]]))"
proof -
  let ?g = "\<lambda>p. int (length (variables p))"
  let ?ps = "rev (sort_key ?g (rev (projects r)))"
  have s: "sorted_projects r = Inr ?ps"
    by (simp add: sorted_projects_def py_sorted_int)
  have m: "mset ?ps = mset (projects r)"
    by simp
  have "sorted (map ?g (sort_key ?g (rev (projects r))))"
    by (rule sorted_sort_key)
  then have d: "sorted_wrt (\<lambda>p q. length (variables q) \<le> length (variables p)) ?ps"
    by (simp add: sorted_wrt_rev sorted_map)
  have st: "filter (\<lambda>p. length (variables p) = k) ?ps
               = filter (\<lambda>p. length (variables p) = k) (projects r)" for k
  proof -
    have "filter (\<lambda>p. ?g p = int k) ?ps
            = rev (filter (\<lambda>p. ?g p = int k) (sort_key ?g (rev (projects r))))"
      by (simp add: rev_filter)
    also have "\<dots> = rev (filter (\<lambda>p. ?g p = int k) (rev (projects r)))"
      by (simp only: sort_key_stable)
    also have "\<dots> = filter (\<lambda>p. ?g p = int k) (projects r)"
      by (simp add: rev_filter)
    finally show ?thesis by simp
  qed
  have o: "\<exists>blocks. list_all2 (\<lambda>p b. project_lines p = Inr b) ?ps blocks \<and>
              out = summary_header r @ concat blocks @ [[Lit (newline @ replicate 80 CHR ''='')]]"
    if "projects r \<noteq> [] \<and> display_summary r = Inr out" for out
  proof -
    from that s obtain ls where ls: "render_projects ?ps = Inr ls"
      and out: "out = summary_header r @ ls @ [[Lit (newline @ replicate 80 CHR ''='')]]"
      by (auto simp: display_summary_def split: sum.splits)
    from render_projects_blocks [OF ls] out show ?thesis by blast
  qed
  from s m d st o show ?thesis by blast
qed

lemma sorted_variables_str:
  assumes "\<forall>v\<in>set (variables p). is_str (key v)"
  shows "sorted_variables p = Inr (sort_key (\<lambda>v. key_str (key v)) (variables p))"
  using assms by (simp add: sorted_variables_def py_sorted_str)

lemma key_str_inj: "is_str a \<Longrightarrow> is_str b \<Longrightarrow> key_str a = key_str b \<Longrightarrow> a = b"
  by (cases a; cases b) auto

text \<open>
  Claim C7, as amended. For a project all of whose keys are strings, the
  summary prints its variables after the project's five header lines in the
  order of \<^verbatim>\<open>sorted_variables\<close>, a function of the project alone: a rearrangement
  of \<^verbatim>\<open>variables\<close>, ascending (not strictly: equal keys may occur) in the
  case-sensitive lexicographic order of the keys, in which variables with the
  same key keep the order they have in the report. When the keys are distinct
  the order is strictly ascending.
\<close>

theorem sorted_variables_ascending:
  assumes "\<forall>v\<in>set (variables p). is_str (key v)"
  shows "\<exists>vs. sorted_variables p = Inr vs \<and>
           mset vs = mset (variables p) \<and>
           sorted (map (\<lambda>v. key_str (key v)) vs) \<and>
           (\<forall>k. filter (\<lambda>v. key v = k) vs = filter (\<lambda>v. key v = k) (variables p)) \<and>
           (distinct (map key (variables p)) \<longrightarrow> sorted_wrt (<) (map (\<lambda>v. key_str (key v)) vs)) \<and>
           project_lines p = Inr (project_header p @ concat (map variable_lines vs))"
proof -
  let ?g = "\<lambda>v. key_str (key v)"
  let ?vs = "sort_key ?g (variables p)"
  have s: "sorted_variables p = Inr ?vs"
    using assms by (rule sorted_variables_str)
  have m: "mset ?vs = mset (variables p)" by simp
  have a: "sorted (map ?g ?vs)" by (rule sorted_sort_key)
  have st: "filter (\<lambda>v. key v = k) ?vs = filter (\<lambda>v. key v = k) (variables p)" for k
  proof (cases "is_str k")
    case True
    have "filter (\<lambda>v. key v = k) ?vs = filter (\<lambda>v. key v = k) (filter (\<lambda>v. ?g v = key_str k) ?vs)"
      by (auto intro: filter_cong simp: conj_commute)
    also have "\<dots> = filter (\<lambda>v. key v = k) (filter (\<lambda>v. ?g v = key_str k) (variables p))"
      by (simp only: sort_key_stable)
    also have "\<dots> = filter (\<lambda>v. key v = k) (variables p)"
      by (auto intro: filter_cong simp: conj_commute)
    finally show ?thesis .
  next
    case False
    with assms have "\<forall>v\<in>set (variables p). key v \<noteq> k" by auto
    then have "filter (\<lambda>v. key v = k) ?vs = []" "filter (\<lambda>v. key v = k) (variables p) = []"
      by (auto simp: filter_empty_conv)
    then show ?thesis by simp
  qed
  have d: "sorted_wrt (<) (map ?g ?vs)" if "distinct (map key (variables p))"
  proof -
    have "inj_on key_str (key ` set (variables p))"
      using assms by (auto intro!: inj_onI key_str_inj)
    with that have "distinct (map key_str (map key (variables p)))"
      by (simp only: distinct_map set_map)
    then have "distinct (map ?g (variables p))"
      by (simp add: comp_def)
    then have "distinct (map ?g ?vs)"
      by (metis distinct_map distinct_sort set_sort)
    with a show ?thesis
      by (simp add: strict_sorted_iff)
  qed
  have l: "project_lines p = Inr (project_header p @ concat (map variable_lines ?vs))"
    by (simp add: project_lines_def s)
  from s m a st d l show ?thesis by blast
qed

lemma single_server_projects:
  "get_all_projects auditor0 (single_project_server vars) []
     = Some ([project_a], [projects_request auditor0 1])"
proof -
  have p: "page_response auditor0 (single_project_server vars) [] (Suc 0) = Ok Map.empty [project_a]"
    by (simp add: page_response_def single_project_server_def projects_request_def)
  then have "\<not> has_next (page_response auditor0 (single_project_server vars) [] (Suc 0))"
    by simp
  from loop_stops [of 0 auditor0 "single_project_server vars" "[]", OF _ this] p
  show ?thesis by (simp add: collected_def page_log_def)
qed

lemma single_server_fetched:
  "fetched auditor0 (single_project_server vars) [projects_request auditor0 1] [project_a]
     = [(project_a, vars)]"
  by (simp add: py_getitem_def project_a_def get_project_variables_def
      single_project_server_def variables_request_def)

lemma single_server_report:
  "vars \<noteq> [] \<Longrightarrow>
   audit_secrets auditor0 (single_project_server vars) ''2024-01-01T00:00:00'' []
     = Some (Inr (report_single (map project_variable vars), log_single))"
  by (simp add: audit_secrets_def single_server_projects py_getitem_def project_a_def
      get_project_variables_def single_project_server_def variables_request_def
      make_project_data_def report_single_def entry_single_def log_single_def)

lemma stored_simps:
  "project_variable var_nokey = stored_nokey"
  "project_variable var_tok = stored_tok"
  "project_variable var_prod = vd_prod"
  "project_variable var_stag = vd_stag"
  by (simp_all add: project_variable_def py_get_def var_nokey_def var_tok_def var_prod_def
      var_stag_def stored_nokey_def stored_tok_def vd_prod_def vd_stag_def)

lemma sorted_bac: "sorted_projects report_bac = Inr [entry_a, entry_b, entry_c]"
  by (simp add: sorted_projects_def py_sorted_def report_bac_def entry_a_def entry_b_def entry_c_def)

lemma sorted_entry_a: "sorted_variables entry_a = Inr [va_a, va_b, va_c]"
  by (simp add: sorted_variables_def py_sorted_def entry_a_def va_a_def va_b_def va_c_def)

lemma sorted_entry_b: "sorted_variables entry_b = Inr [va_b]"
  by (simp add: sorted_variables_def py_sorted_def entry_b_def)

lemma sorted_entry_c: "sorted_variables entry_c = Inr [va_a]"
  by (simp add: sorted_variables_def py_sorted_def entry_c_def)

lemma display_bac:
  "display_summary report_bac
     = Inr (summary_header report_bac
            @ (project_header entry_a @ variable_lines va_a @ variable_lines va_b @ variable_lines va_c)
            @ (project_header entry_b @ variable_lines va_b)
            @ (project_header entry_c @ variable_lines va_a)
            @ [[Lit (newline @ replicate 80 CHR ''='')]])"
proof -
  have "projects report_bac \<noteq> []" by (simp add: report_bac_def)
  then show ?thesis
    by (simp add: display_summary_def sorted_bac project_lines_def sorted_entry_a sorted_entry_b
        sorted_entry_c)
qed

text \<open>
  The scenario of claim C6, with a tie: projects b, a, c with 1, 3 and 1
  variables are rendered in the order a, b, c.
\<close>

theorem display_summary_project_order_witness:
  "projects report_bac = [entry_b, entry_a, entry_c] \<and>
   sorted_projects report_bac = Inr [entry_a, entry_b, entry_c] \<and>
   sorted_wrt (\<lambda>p q. length (variables q) \<le> length (variables p)) [entry_a, entry_b, entry_c] \<and>
   filter (\<lambda>p. length (variables p) = 1) [entry_a, entry_b, entry_c] = [entry_b, entry_c] \<and>
   display_summary report_bac
     = Inr (summary_header report_bac
            @ (project_header entry_a @ variable_lines va_a @ variable_lines va_b @ variable_lines va_c)
            @ (project_header entry_b @ variable_lines va_b)
            @ (project_header entry_c @ variable_lines va_a)
            @ [[Lit (newline @ replicate 80 CHR ''='')]])"
proof -
  from display_summary_project_order [of report_bac] obtain ps where
    s: "sorted_projects report_bac = Inr ps" and
    d: "sorted_wrt (\<lambda>p q. length (variables q) \<le> length (variables p)) ps" and
    st: "\<forall>k. filter (\<lambda>p. length (variables p) = k) ps
               = filter (\<lambda>p. length (variables p) = k) (projects report_bac)"
    by blast
  from s have ps: "ps = [entry_a, entry_b, entry_c]"
    by (simp add: sorted_bac)
  have p: "projects report_bac = [entry_b, entry_a, entry_c]"
    by (simp add: report_bac_def)
  from st have "filter (\<lambda>p. length (variables p) = 1) ps
               = filter (\<lambda>p. length (variables p) = 1) (projects report_bac)"
    by (rule spec)
  then have f: "filter (\<lambda>p. length (variables p) = 1) [entry_a, entry_b, entry_c] = [entry_b, entry_c]"
    unfolding ps p by (simp add: entry_a_def entry_b_def entry_c_def)
  from p sorted_bac d [unfolded ps] f display_bac show ?thesis
    by (simp only: simp_thms)
qed

text \<open>
  The scenario of claim C7: the keys \<^verbatim>\<open>B_KEY\<close>, \<^verbatim>\<open>A_KEY\<close> and \<^verbatim>\<open>a_key\<close> are printed
  as \<^verbatim>\<open>A_KEY\<close>, \<^verbatim>\<open>B_KEY\<close>, \<^verbatim>\<open>a_key\<close>.
\<close>

theorem sorted_variables_ascending_witness:
  "variables entry_a = [va_b, va_a, va_c] \<and>
   is_str (key va_b) \<and> is_str (key va_a) \<and> is_str (key va_c) \<and>
   sorted_variables entry_a = Inr [va_a, va_b, va_c] \<and>
   map (\<lambda>v. key_str (key v)) [va_a, va_b, va_c] = [''A_KEY'', ''B_KEY'', ''a_key''] \<and>
   sorted_wrt (<) [''A_KEY'', ''B_KEY'', ''a_key''] \<and>
   project_lines entry_a
     = Inr (project_header entry_a @ variable_lines va_a @ variable_lines va_b @ variable_lines va_c)"
proof -
  have v: "variables entry_a = [va_b, va_a, va_c]"
    by (simp add: entry_a_def)
  have k: "is_str (key va_b)" "is_str (key va_a)" "is_str (key va_c)"
    by (simp_all add: va_a_def va_b_def va_c_def)
  then have h: "\<forall>v\<in>set (variables entry_a). is_str (key v)"
    by (simp add: v)
  have dk: "distinct (map key (variables entry_a))"
    by (simp add: v va_a_def va_b_def va_c_def)
  from sorted_variables_ascending [OF h] obtain vs where
    s: "sorted_variables entry_a = Inr vs" and
    d: "distinct (map key (variables entry_a)) \<longrightarrow> sorted_wrt (<) (map (\<lambda>v. key_str (key v)) vs)" and
    l: "project_lines entry_a = Inr (project_header entry_a @ concat (map variable_lines vs))"
    by blast
  from s have vs: "vs = [va_a, va_b, va_c]"
    by (simp add: sorted_entry_a)
  have m: "map (\<lambda>v. key_str (key v)) [va_a, va_b, va_c] = [''A_KEY'', ''B_KEY'', ''a_key'']"
    by (simp add: va_a_def va_b_def va_c_def)
  from d dk have "sorted_wrt (<) (map (\<lambda>v. key_str (key v)) vs)" by simp
  then have sw: "sorted_wrt (<) [''A_KEY'', ''B_KEY'', ''a_key'']"
    unfolding vs m .
  from l have l': "project_lines entry_a
     = Inr (project_header entry_a @ variable_lines va_a @ variable_lines va_b @ variable_lines va_c)"
    unfolding vs by simp
  from v k sorted_entry_a m sw l' show ?thesis
    by (simp only: simp_thms)
qed

text \<open>
  Against claim C7 as stated: a server returns the key \<^verbatim>\<open>DATABASE_URL\<close> for the
  scopes production and staging. The audit stores both, the summary prints
  both, one after the other, and the two printed keys are equal, so they are
  not in strictly ascending order.
\<close>

theorem sorted_variables_strict_counterexample:
  "audit_secrets auditor0 (single_project_server [var_prod, var_stag]) ''2024-01-01T00:00:00'' []
     = Some (Inr (report_single [vd_prod, vd_stag], log_single)) \<and>
   sorted_variables (entry_single [vd_prod, vd_stag]) = Inr [vd_prod, vd_stag] \<and>
   display_summary (report_single [vd_prod, vd_stag])
     = Inr (summary_header (report_single [vd_prod, vd_stag])
            @ project_header (entry_single [vd_prod, vd_stag])
            @ variable_lines vd_prod @ variable_lines vd_stag
            @ [[Lit (newline @ replicate 80 CHR ''='')]]) \<and>
   key vd_prod = JStr ''DATABASE_URL'' \<and>
   key vd_stag = JStr ''DATABASE_URL'' \<and>
   \<not> key_str (key vd_prod) < key_str (key vd_stag)"
proof -
  have a: "audit_secrets auditor0 (single_project_server [var_prod, var_stag]) ''2024-01-01T00:00:00'' []
     = Some (Inr (report_single [vd_prod, vd_stag], log_single))"
    using single_server_report [of "[var_prod, var_stag]"] by (simp add: stored_simps)
  have s: "sorted_variables (entry_single [vd_prod, vd_stag]) = Inr [vd_prod, vd_stag]"
    by (simp add: sorted_variables_def py_sorted_def entry_single_def vd_prod_def vd_stag_def)
  have sp: "sorted_projects (report_single [vd_prod, vd_stag]) = Inr [entry_single [vd_prod, vd_stag]]"
    by (simp add: sorted_projects_def py_sorted_def report_single_def)
  have ne: "projects (report_single [vd_prod, vd_stag]) \<noteq> []"
    by (simp add: report_single_def)
  have d: "display_summary (report_single [vd_prod, vd_stag])
     = Inr (summary_header (report_single [vd_prod, vd_stag])
            @ project_header (entry_single [vd_prod, vd_stag])
            @ variable_lines vd_prod @ variable_lines vd_stag
            @ [[Lit (newline @ replicate 80 CHR ''='')]])"
    using ne by (simp add: display_summary_def sp project_lines_def s)
  have k: "key vd_prod = JStr ''DATABASE_URL''" "key vd_stag = JStr ''DATABASE_URL''"
    by (simp_all add: vd_prod_def vd_stag_def)
  then have n: "\<not> key_str (key vd_prod) < key_str (key vd_stag)"
    by simp
  from a s d k n show ?thesis
    by (simp only: simp_thms)
qed

lemma entries_member:
  "entries fs = Inr es \<Longrightarrow> (prj, vars) \<in> set fs \<Longrightarrow> vars \<noteq> [] \<Longrightarrow>
   \<exists>p\<in>set es. variables p = map project_variable vars"
proof (induction fs arbitrary: es)
  case Nil
  then show ?case by simp
next
  case (Cons f fs)
  show ?case
  proof (cases "snd f = []")
    case True
    with Cons.prems have "entries fs = Inr es" "(prj, vars) \<in> set fs" by auto
    with Cons.IH Cons.prems(3) show ?thesis by blast
  next
    case False
    with Cons.prems(1) obtain pd pds where e: "entry f = Inr pd" "entries fs = Inr pds" "es = pd # pds"
      by (auto split: sum.splits)
    show ?thesis
    proof (cases "f = (prj, vars)")
      case True
      with entry_variables [OF e(1)] e(3) show ?thesis by simp
    next
      case False
      with Cons.prems(2) have "(prj, vars) \<in> set fs" by simp
      from Cons.IH [OF e(2) this Cons.prems(3)] e(3) show ?thesis by auto
    qed
  qed
qed

lemma sorted_projects_set:
  "sorted_projects r = Inr ps \<Longrightarrow> set ps = set (projects r)"
  by (auto simp: sorted_projects_def py_sorted_int)

lemma display_summary_fails:
  assumes "p \<in> set (projects r)" and "sorted_variables p = Inl e"
  shows "display_summary r = Inl TypeError"
proof -
  from assms(1) have ne: "projects r \<noteq> []" by auto
  have s: "sorted_projects r = Inr (rev (sort_key (\<lambda>p. int (length (variables p))) (rev (projects r))))"
    by (simp add: sorted_projects_def py_sorted_int)
  from assms(2) have "project_lines p = Inl e"
    by (simp add: project_lines_def)
  moreover from assms(1) have "p \<in> set (rev (sort_key (\<lambda>p. int (length (variables p))) (rev (projects r))))"
    by simp
  ultimately have "render_projects (rev (sort_key (\<lambda>p. int (length (variables p))) (rev (projects r))))
                     = Inl TypeError"
    by (rule render_projects_fails [rotated])
  with ne s show ?thesis
    by (simp add: display_summary_def)
qed

text \<open>
  Against claim C10 as stated: a server returns, for the one project, a single
  variable object without a \<^verbatim>\<open>key\<close> field. The stored key is \<^verbatim>\<open>None\<close>, yet the
  sort of that project's variables is defined (one element is never compared)
  and the summary is printed.
\<close>

theorem missing_key_single_counterexample:
  "map_of var_nokey ''key'' = None \<and>
   audit_secrets auditor0 (single_project_server [var_nokey]) ''2024-01-01T00:00:00'' []
     = Some (Inr (report_single [stored_nokey], log_single)) \<and>
   key stored_nokey = JNull \<and>
   sorted_variables (entry_single [stored_nokey]) = Inr [stored_nokey] \<and>
   display_summary (report_single [stored_nokey])
     = Inr (summary_header (report_single [stored_nokey])
            @ project_header (entry_single [stored_nokey])
            @ variable_lines stored_nokey
            @ [[Lit (newline @ replicate 80 CHR ''='')]])"
proof -
  have m: "map_of var_nokey ''key'' = None"
    by (simp add: var_nokey_def)
  have a: "audit_secrets auditor0 (single_project_server [var_nokey]) ''2024-01-01T00:00:00'' []
     = Some (Inr (report_single [stored_nokey], log_single))"
    using single_server_report [of "[var_nokey]"] by (simp add: stored_simps)
  have k: "key stored_nokey = JNull"
    by (simp add: stored_nokey_def)
  have s: "sorted_variables (entry_single [stored_nokey]) = Inr [stored_nokey]"
    by (simp add: sorted_variables_def py_sorted_def entry_single_def)
  have sp: "sorted_projects (report_single [stored_nokey]) = Inr [entry_single [stored_nokey]]"
    by (simp add: sorted_projects_def py_sorted_def report_single_def)
  have ne: "projects (report_single [stored_nokey]) \<noteq> []"
    by (simp add: report_single_def)
  have d: "display_summary (report_single [stored_nokey])
     = Inr (summary_header (report_single [stored_nokey])
            @ project_header (entry_single [stored_nokey])
            @ variable_lines stored_nokey
            @ [[Lit (newline @ replicate 80 CHR ''='')]])"
    using ne by (simp add: display_summary_def sp project_lines_def s)
  from m a k s d show ?thesis
    by (simp only: simp_thms)
qed

text \<open>
  Claim C10, as amended. The key is projected with no default: when the fetch
  of some project in a run returns a list of at least two variable objects, one
  of them without a \<^verbatim>\<open>key\<close> field, the report has an entry for that project whose
  stored record for the object has key \<^verbatim>\<open>None\<close>; sorting that entry's variables
  raises \<^verbatim>\<open>TypeError\<close> and so does \<^verbatim>\<open>display_summary\<close> on the report. The
  renderer is not total over the reports \<^verbatim>\<open>audit_secrets\<close> returns.
\<close>

theorem missing_key_breaks_rendering:
  assumes "audit_secrets self server now log = Some (Inr (r, log'))"
    and "get_all_projects self server log = Some (ps, lg)"
    and "(prj, vars) \<in> set (fetched self server lg ps)"
    and "var \<in> set vars"
    and "map_of var ''key'' = None"
    and "2 \<le> length vars"
  shows "\<exists>p\<in>set (projects r).
           variables p = map project_variable vars \<and>
           project_variable var \<in> set (variables p) \<and>
           key (project_variable var) = JNull \<and>
           sorted_variables p = Inl TypeError \<and>
           display_summary r = Inl TypeError"
proof -
  from assms(1) obtain ps' lg' es where
    g: "get_all_projects self server log = Some (ps', lg')" and
    e': "entries (fetched self server lg' ps') = Inr es" and
    r: "projects r = es"
    by (rule audit_secrets_run) simp
  from g assms(2) have "ps' = ps" "lg' = lg" by simp_all
  with e' have e: "entries (fetched self server lg ps) = Inr es" by simp
  from assms(6) have ne: "vars \<noteq> []" by auto
  from entries_member [OF e assms(3) ne] r obtain p where
    p: "p \<in> set (projects r)" and v: "variables p = map project_variable vars"
    by auto
  from assms(4) v have mem: "project_variable var \<in> set (variables p)" by simp
  from assms(5) have k: "key (project_variable var) = JNull"
    by (simp add: project_variable_def py_get_def)
  from assms(6) v have len: "2 \<le> length (variables p)" by simp
  have s: "sorted_variables p = Inl TypeError"
    unfolding sorted_variables_def py_sorted_def
    using sort_lt_None [of "project_variable var" "variables p" key, OF mem k len] by simp
  from display_summary_fails [OF p s] have d: "display_summary r = Inl TypeError" .
  from p v mem k s d show ?thesis by blast
qed

text \<open>
  A server returns, for the one project, an object without a \<^verbatim>\<open>key\<close> field
  beside a well-formed one: the audit returns a report and the summary of that
  report raises \<^verbatim>\<open>TypeError\<close>.
\<close>

theorem missing_key_breaks_rendering_witness:
  "audit_secrets auditor0 (single_project_server [var_nokey, var_tok]) ''2024-01-01T00:00:00'' []
     = Some (Inr (report_single [stored_nokey, stored_tok], log_single)) \<and>
   get_all_projects auditor0 (single_project_server [var_nokey, var_tok]) []
     = Some ([project_a], [projects_request auditor0 1]) \<and>
   fetched auditor0 (single_project_server [var_nokey, var_tok]) [projects_request auditor0 1] [project_a]
     = [(project_a, [var_nokey, var_tok])] \<and>
   map_of var_nokey ''key'' = None \<and>
   projects (report_single [stored_nokey, stored_tok]) = [entry_single [stored_nokey, stored_tok]] \<and>
   sorted_variables (entry_single [stored_nokey, stored_tok]) = Inl TypeError \<and>
   display_summary (report_single [stored_nokey, stored_tok]) = Inl TypeError"
proof -
  let ?srv = "single_project_server [var_nokey, var_tok]"
  let ?r = "report_single [stored_nokey, stored_tok]"
  have a: "audit_secrets auditor0 ?srv ''2024-01-01T00:00:00'' [] = Some (Inr (?r, log_single))"
    using single_server_report [of "[var_nokey, var_tok]"] by (simp add: stored_simps)
  have g: "get_all_projects auditor0 ?srv [] = Some ([project_a], [projects_request auditor0 1])"
    by (rule single_server_projects)
  have f: "fetched auditor0 ?srv [projects_request auditor0 1] [project_a]
             = [(project_a, [var_nokey, var_tok])]"
    by (rule single_server_fetched)
  have f': "(project_a, [var_nokey, var_tok])
              \<in> set (fetched auditor0 ?srv [projects_request auditor0 1] [project_a])"
    unfolding f by simp
  have v: "var_nokey \<in> set [var_nokey, var_tok]" by simp
  have m: "map_of var_nokey ''key'' = None"
    by (simp add: var_nokey_def)
  have l: "2 \<le> length [var_nokey, var_tok]" by simp
  have p: "projects ?r = [entry_single [stored_nokey, stored_tok]]"
    by (simp add: report_single_def)
  from missing_key_breaks_rendering [OF a g f' v m l] obtain q where
    q: "q \<in> set (projects ?r)" "sorted_variables q = Inl TypeError"
       "display_summary ?r = Inl TypeError"
    by blast
  from q(1) p have "q = entry_single [stored_nokey, stored_tok]" by simp
  with q have "sorted_variables (entry_single [stored_nokey, stored_tok]) = Inl TypeError"
    and "display_summary ?r = Inl TypeError"
    by simp_all
  with a g f m p show ?thesis
    by (simp only: simp_thms)
qed

end

